theory Spec2Isabelle
  imports Complex_Main "HOL-Library.Word"
begin

section \<open>JavaScript values used by the quiz pages\<close>

text \<open>
  A JavaScript string is a sequence of 16-bit code units, and \<open>.length\<close> counts code
  units. The text a user types into a textarea can hold any code unit, so answers are
  lists of 16-bit words. \<open>js\<close> writes an ASCII literal as such a string.
\<close>

type_synonym jsstring = "16 word list"

definition js :: "string \<Rightarrow> jsstring" where
  "js s = map of_char s"

text \<open>
  \<open>String.prototype.trim\<close> removes the ECMAScript WhiteSpace and LineTerminator code
  points from both ends: TAB, LF, VT, FF, CR, SPACE, NBSP, U+1680, U+2000..U+200A,
  U+2028, U+2029, U+202F, U+205F, U+3000 and U+FEFF.
\<close>

definition isWhiteSpace :: "16 word \<Rightarrow> bool" where
  "isWhiteSpace c \<longleftrightarrow>
     c = 0x9 \<or> c = 0xA \<or> c = 0xB \<or> c = 0xC \<or> c = 0xD \<or> c = 0x20 \<or> c = 0xA0
     \<or> c = 0x1680 \<or> (0x2000 \<le> c \<and> c \<le> 0x200A) \<or> c = 0x2028 \<or> c = 0x2029
     \<or> c = 0x202F \<or> c = 0x205F \<or> c = 0x3000 \<or> c = 0xFEFF"

definition trim :: "jsstring \<Rightarrow> jsstring" where
  "trim s = rev (dropWhile isWhiteSpace (rev (dropWhile isWhiteSpace s)))"

text \<open>
  The condition \<open>answers[q]?.trim()\<close>: a missing entry gives \<open>undefined\<close>, and a string
  is truthy when it is not empty.
\<close>

definition truthy_trim :: "jsstring option \<Rightarrow> bool" where
  "truthy_trim a = (case a of None \<Rightarrow> False | Some s \<Rightarrow> trim s \<noteq> [])"

text \<open>The text a textarea shows for a question: \<open>answers[q] || ''\<close>.\<close>

definition shown :: "jsstring option \<Rightarrow> jsstring" where
  "shown a = (case a of None \<Rightarrow> [] | Some s \<Rightarrow> s)"

text \<open>
  Scores and progress values are JavaScript numbers that only ever hold small integers
  (sums of the constants below), where double arithmetic is exact; they are \<open>int\<close> here.
  Question identifiers are the integer keys of the answer objects, \<open>nat\<close> here.
\<close>

section \<open>Management page (management.tsx)\<close>

text \<open>
  Of the \<open>Question\<close> interface the fields \<open>id\<close> and \<open>points\<close> are kept; \<open>question\<close>
  and \<open>category\<close> are display text.
\<close>

record m_Question =
  m_id :: nat
  m_points :: int

definition managementQuestions :: "m_Question list" where
  "managementQuestions =
     [\<lparr>m_id = 1, m_points = 10\<rparr>, \<lparr>m_id = 2, m_points = 15\<rparr>, \<lparr>m_id = 3, m_points = 20\<rparr>,
      \<lparr>m_id = 4, m_points = 25\<rparr>, \<lparr>m_id = 5, m_points = 30\<rparr>, \<lparr>m_id = 6, m_points = 35\<rparr>]"

record ManagementPage =
  m_answers :: "nat \<Rightarrow> jsstring option"
  m_currentQuestion :: nat
  m_totalScore :: int

definition m_init :: ManagementPage where
  "m_init = \<lparr>m_answers = Map.empty, m_currentQuestion = 0, m_totalScore = 0\<rparr>"

definition m_handleAnswerChange :: "ManagementPage \<Rightarrow> nat \<Rightarrow> jsstring \<Rightarrow> ManagementPage" where
  "m_handleAnswerChange st questionId answer =
     st\<lparr>m_answers := (m_answers st)(questionId \<mapsto> answer)\<rparr>"

definition m_submitAnswer :: "ManagementPage \<Rightarrow> nat \<Rightarrow> ManagementPage" where
  "m_submitAnswer st questionId =
     (case m_answers st questionId of
        None \<Rightarrow> st
      | Some answer \<Rightarrow>
          if answer \<noteq> [] \<and> 10 < length (trim answer) then
            (case find (\<lambda>q. m_id q = questionId) managementQuestions of
               None \<Rightarrow> st
             | Some question \<Rightarrow> st\<lparr>m_totalScore := m_totalScore st + m_points question\<rparr>)
          else st)"

definition m_nextQuestion :: "ManagementPage \<Rightarrow> ManagementPage" where
  "m_nextQuestion st =
     (if m_currentQuestion st < length managementQuestions - 1
      then st\<lparr>m_currentQuestion := m_currentQuestion st + 1\<rparr> else st)"

definition m_prevQuestion :: "ManagementPage \<Rightarrow> ManagementPage" where
  "m_prevQuestion st =
     (if 0 < m_currentQuestion st
      then st\<lparr>m_currentQuestion := m_currentQuestion st - 1\<rparr> else st)"

text \<open>
  The rendered controls. \<open>managementQuestions[currentQuestion]?.id\<close> is the identifier
  of the question on display; \<open>currentQuestion\<close> starts at 0 and is only moved by the
  two guarded handlers above and by the six core dots, so it stays below 6. The PROCESS
  button is disabled when \<open>!answers[id]?.trim()\<close>; a disabled button delivers no click.
\<close>

definition m_current_id :: "ManagementPage \<Rightarrow> nat option" where
  "m_current_id st =
     (if m_currentQuestion st < length managementQuestions
      then Some (m_id (managementQuestions ! m_currentQuestion st)) else None)"

definition m_submit_disabled :: "ManagementPage \<Rightarrow> bool" where
  "m_submit_disabled st =
     (case m_current_id st of None \<Rightarrow> True | Some q \<Rightarrow> \<not> truthy_trim (m_answers st q))"

definition m_click_process :: "ManagementPage \<Rightarrow> ManagementPage" where
  "m_click_process st =
     (case m_current_id st of
        None \<Rightarrow> st
      | Some q \<Rightarrow> if m_submit_disabled st then st else m_submitAnswer st q)"

section \<open>Design, research and tech pages (design.tsx, research and tech components)\<close>

text \<open>
  The three pages list questions 1 to 5; only the identifiers matter to the handlers
  (\<open>question\<close> and \<open>placeholder\<close> are display text). \<open>console.log\<close> is not modelled.
\<close>

definition designQuestions :: "nat list" where
  "designQuestions = [1, 2, 3, 4, 5]"

definition researchQuestions :: "nat list" where
  "researchQuestions = [1, 2, 3, 4, 5]"

definition techQuestions :: "nat list" where
  "techQuestions = [1, 2, 3, 4, 5]"

record DesignPage =
  d_answers :: "nat \<Rightarrow> jsstring option"
  d_submittedQuestions :: "nat set"
  d_designProgress :: int

record ResearchPage =
  r_answers :: "nat \<Rightarrow> jsstring option"
  r_submittedQuestions :: "nat set"

record TechPage =
  t_answers :: "nat \<Rightarrow> jsstring option"
  t_submittedQuestions :: "nat set"
  t_fanSpeed :: int

definition d_init :: DesignPage where
  "d_init = \<lparr>d_answers = Map.empty, d_submittedQuestions = {}, d_designProgress = 0\<rparr>"

definition r_init :: ResearchPage where
  "r_init = \<lparr>r_answers = Map.empty, r_submittedQuestions = {}\<rparr>"

definition t_init :: TechPage where
  "t_init = \<lparr>t_answers = Map.empty, t_submittedQuestions = {}, t_fanSpeed = 60\<rparr>"

definition d_handleAnswerChange :: "DesignPage \<Rightarrow> nat \<Rightarrow> jsstring \<Rightarrow> DesignPage" where
  "d_handleAnswerChange st questionId v = st\<lparr>d_answers := (d_answers st)(questionId \<mapsto> v)\<rparr>"

definition r_handleAnswerChange :: "ResearchPage \<Rightarrow> nat \<Rightarrow> jsstring \<Rightarrow> ResearchPage" where
  "r_handleAnswerChange st questionId v = st\<lparr>r_answers := (r_answers st)(questionId \<mapsto> v)\<rparr>"

definition t_handleAnswerChange :: "TechPage \<Rightarrow> nat \<Rightarrow> jsstring \<Rightarrow> TechPage" where
  "t_handleAnswerChange st questionId v = st\<lparr>t_answers := (t_answers st)(questionId \<mapsto> v)\<rparr>"

definition d_handleSubmitAnswer :: "DesignPage \<Rightarrow> nat \<Rightarrow> DesignPage" where
  "d_handleSubmitAnswer st questionId =
     (if truthy_trim (d_answers st questionId)
      then st\<lparr>d_submittedQuestions := insert questionId (d_submittedQuestions st),
              d_designProgress := min 100 (d_designProgress st + 20)\<rparr>
      else st)"

definition r_handleSubmitAnswer :: "ResearchPage \<Rightarrow> nat \<Rightarrow> ResearchPage" where
  "r_handleSubmitAnswer st questionId =
     (if truthy_trim (r_answers st questionId)
      then st\<lparr>r_submittedQuestions := insert questionId (r_submittedQuestions st)\<rparr>
      else st)"

definition t_handleSubmitAnswer :: "TechPage \<Rightarrow> nat \<Rightarrow> TechPage" where
  "t_handleSubmitAnswer st questionId =
     (if truthy_trim (t_answers st questionId)
      then st\<lparr>t_submittedQuestions := insert questionId (t_submittedQuestions st),
              t_fanSpeed := min 100 (t_fanSpeed st + 8)\<rparr>
      else st)"

text \<open>
  The rendered controls of a question card: the textarea is disabled when the question
  is in the submitted set, the button when the answer is blank or the question is in the
  set. A disabled control delivers no event. A card exists for each listed question.
\<close>

datatype card_event = Type nat jsstring | Click nat

definition d_textarea_disabled :: "DesignPage \<Rightarrow> nat \<Rightarrow> bool" where
  "d_textarea_disabled st q = (q \<in> d_submittedQuestions st)"

definition d_button_disabled :: "DesignPage \<Rightarrow> nat \<Rightarrow> bool" where
  "d_button_disabled st q = (\<not> truthy_trim (d_answers st q) \<or> q \<in> d_submittedQuestions st)"

definition r_textarea_disabled :: "ResearchPage \<Rightarrow> nat \<Rightarrow> bool" where
  "r_textarea_disabled st q = (q \<in> r_submittedQuestions st)"

definition r_button_disabled :: "ResearchPage \<Rightarrow> nat \<Rightarrow> bool" where
  "r_button_disabled st q = (\<not> truthy_trim (r_answers st q) \<or> q \<in> r_submittedQuestions st)"

definition t_textarea_disabled :: "TechPage \<Rightarrow> nat \<Rightarrow> bool" where
  "t_textarea_disabled st q = (q \<in> t_submittedQuestions st)"

definition t_button_disabled :: "TechPage \<Rightarrow> nat \<Rightarrow> bool" where
  "t_button_disabled st q = (\<not> truthy_trim (t_answers st q) \<or> q \<in> t_submittedQuestions st)"

fun d_event :: "DesignPage \<Rightarrow> card_event \<Rightarrow> DesignPage" where
  "d_event st (Type q v) =
     (if q \<in> set designQuestions \<and> \<not> d_textarea_disabled st q
      then d_handleAnswerChange st q v else st)"
| "d_event st (Click q) =
     (if q \<in> set designQuestions \<and> \<not> d_button_disabled st q
      then d_handleSubmitAnswer st q else st)"

fun r_event :: "ResearchPage \<Rightarrow> card_event \<Rightarrow> ResearchPage" where
  "r_event st (Type q v) =
     (if q \<in> set researchQuestions \<and> \<not> r_textarea_disabled st q
      then r_handleAnswerChange st q v else st)"
| "r_event st (Click q) =
     (if q \<in> set researchQuestions \<and> \<not> r_button_disabled st q
      then r_handleSubmitAnswer st q else st)"

fun t_event :: "TechPage \<Rightarrow> card_event \<Rightarrow> TechPage" where
  "t_event st (Type q v) =
     (if q \<in> set techQuestions \<and> \<not> t_textarea_disabled st q
      then t_handleAnswerChange st q v else st)"
| "t_event st (Click q) =
     (if q \<in> set techQuestions \<and> \<not> t_button_disabled st q
      then t_handleSubmitAnswer st q else st)"

section \<open>Competitive-coding pages (the two components beside App)\<close>

subsection \<open>CompetitiveCodingPage: code and explanation, score and submissions\<close>

text \<open>
  Of the \<open>Question\<close> interface the fields \<open>id\<close> and \<open>points\<close> are kept. \<open>alert\<close> is
  the handler's only output and is returned beside the new state.
\<close>

record c_Question =
  c_id :: nat
  c_points :: int

definition questions :: "c_Question list" where
  "questions =
     [\<lparr>c_id = 1, c_points = 100\<rparr>, \<lparr>c_id = 2, c_points = 200\<rparr>, \<lparr>c_id = 3, c_points = 300\<rparr>,
      \<lparr>c_id = 4, c_points = 250\<rparr>, \<lparr>c_id = 5, c_points = 350\<rparr>]"

record Answer =
  questionId :: nat
  code :: jsstring
  explanation :: jsstring

record CompetitiveCodingPage =
  c_answers :: "nat \<Rightarrow> Answer option"
  c_activeQuestion :: nat
  c_totalScore :: int
  c_submissions :: "nat \<Rightarrow> bool option"

definition c_init :: CompetitiveCodingPage where
  "c_init = \<lparr>c_answers = Map.empty, c_activeQuestion = 1, c_totalScore = 0,
             c_submissions = Map.empty\<rparr>"

datatype field = Code | Explanation

definition updateAnswer :: "CompetitiveCodingPage \<Rightarrow> nat \<Rightarrow> field \<Rightarrow> jsstring \<Rightarrow> CompetitiveCodingPage" where
  "updateAnswer st q f v =
     st\<lparr>c_answers := (c_answers st)(q \<mapsto>
        \<lparr>questionId = q,
         code = (if f = Code then v
                 else (case c_answers st q of None \<Rightarrow> [] | Some a \<Rightarrow> code a)),
         explanation = (if f = Explanation then v
                        else (case c_answers st q of None \<Rightarrow> [] | Some a \<Rightarrow> explanation a))\<rparr>)\<rparr>"

datatype alert = SubmittedSuccessfully "int option" | PleaseProvideBoth

definition c_submitAnswer :: "CompetitiveCodingPage \<Rightarrow> nat \<Rightarrow> CompetitiveCodingPage \<times> alert" where
  "c_submitAnswer st q =
     (case c_answers st q of
        None \<Rightarrow> (st, PleaseProvideBoth)
      | Some answer \<Rightarrow>
          if trim (code answer) \<noteq> [] \<and> trim (explanation answer) \<noteq> [] then
            (case find (\<lambda>qu. c_id qu = q) questions of
               None \<Rightarrow> (st\<lparr>c_submissions := (c_submissions st)(q \<mapsto> True)\<rparr>,
                        SubmittedSuccessfully None)
             | Some question \<Rightarrow>
                 (st\<lparr>c_submissions := (c_submissions st)(q \<mapsto> True),
                     c_totalScore := c_totalScore st + c_points question\<rparr>,
                  SubmittedSuccessfully (Some (c_points question))))
          else (st, PleaseProvideBoth))"

text \<open>
  The rendered controls: every listed question has its two textareas, its navigation
  button and its submit button, disabled when \<open>submissions[id]\<close> is truthy.
\<close>

definition c_submit_disabled :: "CompetitiveCodingPage \<Rightarrow> nat \<Rightarrow> bool" where
  "c_submit_disabled st q = (c_submissions st q = Some True)"

text \<open>An answer of this page is blank when it is missing or one of its two texts is.\<close>

definition c_blank :: "Answer option \<Rightarrow> bool" where
  "c_blank a =
     (case a of None \<Rightarrow> True | Some x \<Rightarrow> trim (code x) = [] \<or> trim (explanation x) = [])"

datatype c_event = Edit nat field jsstring | Select nat | Submit nat

fun c_step :: "CompetitiveCodingPage \<Rightarrow> c_event \<Rightarrow> CompetitiveCodingPage" where
  "c_step st (Edit q f v) = (if q \<in> set (map c_id questions) then updateAnswer st q f v else st)"
| "c_step st (Select q) = (if q \<in> set (map c_id questions) then st\<lparr>c_activeQuestion := q\<rparr> else st)"
| "c_step st (Submit q) =
     (if q \<in> set (map c_id questions) \<and> \<not> c_submit_disabled st q
      then fst (c_submitAnswer st q) else st)"

text \<open>The sum the score is compared with: the points of the questions marked submitted.\<close>

definition c_marked_points :: "CompetitiveCodingPage \<Rightarrow> int" where
  "c_marked_points st =
     sum_list (map (\<lambda>qu. if c_submissions st (c_id qu) = Some True then c_points qu else 0) questions)"

subsection \<open>CompetitiveCoding: one solution per problem\<close>

text \<open>
  \<open>solutions\<close> and \<open>submittedProblems\<close> are arrays of five entries indexed by
  \<open>currentProblem\<close>. Reading \<open>solutions[currentProblem].trim()\<close> beyond the array throws a
  TypeError (\<open>None\<close>); writing beyond \<open>submittedProblems\<close> extends the array, the holes
  reading as falsy. \<open>memoryUsage\<close> and \<open>executionTime\<close> are recomputed by an effect keyed
  on \<open>solutions\<close> alone, which \<open>handleSubmit\<close> never writes; they are left out.
\<close>

record CompetitiveCoding =
  p_currentProblem :: nat
  p_solutions :: "jsstring list"
  p_submittedProblems :: "bool list"

definition p_init :: CompetitiveCoding where
  "p_init = \<lparr>p_currentProblem = 0, p_solutions = replicate 5 [],
             p_submittedProblems = replicate 5 False\<rparr>"

definition array_set :: "bool list \<Rightarrow> nat \<Rightarrow> bool \<Rightarrow> bool list" where
  "array_set xs i v =
     (if i < length xs then xs[i := v] else xs @ replicate (i - length xs) False @ [v])"

definition handleSubmit :: "CompetitiveCoding \<Rightarrow> CompetitiveCoding option" where
  "handleSubmit st =
     (if p_currentProblem st < length (p_solutions st) then
        (if trim (p_solutions st ! p_currentProblem st) \<noteq> []
         then Some (st\<lparr>p_submittedProblems :=
                         array_set (p_submittedProblems st) (p_currentProblem st) True\<rparr>)
         else Some st)
      else None)"

definition solvedProblems :: "CompetitiveCoding \<Rightarrow> nat" where
  "solvedProblems st = length (filter (\<lambda>b. b) (p_submittedProblems st))"

section \<open>The board scene (motherboard component)\<close>

text \<open>
  Coordinates, angles and normalised pointer positions are JavaScript numbers. They are
  modelled as real numbers: the arithmetic below is that of the source with exact
  results, so rounding, infinities and NaN of IEEE doubles are outside the model.
\<close>

type_synonym vec2 = "real \<times> real"
type_synonym vec3 = "real \<times> real \<times> real"

subsection \<open>Routes (App) and clickable regions (MotherboardLayoutAccurate)\<close>

definition routes :: "jsstring list" where
  "routes = [js ''/'', js ''/management'', js ''/competitive-coding'', js ''/tech'',
             js ''/design'', js ''/research'']"

record Clickable =
  domain :: jsstring
  position :: vec3

text \<open>
  The five \<open>ClickableComponent\<close> elements in the order of the source. The layout reads
  its \<open>isMobile\<close> state for font sizes only.
\<close>

definition MotherboardLayoutAccurate :: "bool \<Rightarrow> Clickable list" where
  "MotherboardLayoutAccurate isMobile =
     [\<lparr>domain = js ''design'', position = (-4.5, 0, -1.0)\<rparr>,
      \<lparr>domain = js ''tech'', position = (1.6, 0.28, -0.6)\<rparr>,
      \<lparr>domain = js ''management'', position = (3.6, 0.35, 1.0)\<rparr>,
      \<lparr>domain = js ''competitive coding'', position = (-1.5, 0.06, 0.5)\<rparr>,
      \<lparr>domain = js ''research'', position = (0, 0.06, 2.0)\<rparr>]"

text \<open>
  \<open>ClickableComponent\<close>: the click handler stops propagation and calls
  \<open>onDomainClick(domain, position)\<close> with its two props; \<open>hovered\<close> is its only state.
  The result is the pair of arguments of that call.
\<close>

definition ClickableComponent_onClick :: "Clickable \<Rightarrow> bool \<Rightarrow> jsstring \<times> vec3" where
  "ClickableComponent_onClick props hovered = (domain props, position props)"

subsection \<open>RotatableMotherboard\<close>

text \<open>
  \<open>groupRef\<close> holds the Euler rotation of the mounted group, \<open>None\<close> while the ref is
  null; \<open>camera\<close> is the camera position. Handlers read the state of the latest render.
\<close>

record RotatableMotherboard =
  isDragging :: bool
  dragStart :: vec2
  rotation :: vec2
  targetRotation :: vec2
  isZooming :: bool
  zoomTarget :: "vec3 option"
  isMobile :: bool
  groupRef :: "vec3 option"
  camera :: vec3


text \<open>\<open>THREE.MathUtils\<close>: \<open>degToRad\<close> multiplies by \<open>pi / 180\<close>, \<open>clamp\<close> is
  \<open>max(min, min(max, value))\<close>.\<close>

definition degToRad :: "real \<Rightarrow> real" where
  "degToRad degrees = degrees * (pi / 180)"



text \<open>\<open>String.prototype.replace\<close> with a one-character string pattern replaces the
  first occurrence only.\<close>

fun replace_first :: "'a \<Rightarrow> 'a \<Rightarrow> 'a list \<Rightarrow> 'a list" where
  "replace_first a b [] = []"
| "replace_first a b (c # cs) = (if c = a then b # cs else c # replace_first a b cs)"

text \<open>
  \<open>handleDomainClick\<close> returns the new state and the one \<open>setTimeout\<close> call it makes:
  the delay in milliseconds and the route its callback navigates to.
\<close>

definition handleDomainClick ::
  "RotatableMotherboard \<Rightarrow> jsstring \<Rightarrow> vec3 \<Rightarrow> RotatableMotherboard \<times> (nat \<times> jsstring)" where
  "handleDomainClick st dmn pos =
     (let rotationMultiplier = (if isMobile st then 0.6 else 1.0);
          duration = (if isMobile st then 2000 else 2500);
          route = js ''/'' @ replace_first 0x20 0x2D dmn
      in (st\<lparr>isZooming := True, zoomTarget := Some pos,
              targetRotation :=
                (fst (targetRotation st) + degToRad (8 * rotationMultiplier),
                 snd (targetRotation st) + degToRad (3 * rotationMultiplier))\<rparr>,
          (duration, route)))"

text \<open>The two components of that timer, by name.\<close>

definition duration_of :: "RotatableMotherboard \<Rightarrow> nat" where
  "duration_of st = (if isMobile st then 2000 else 2500)"

definition route_of :: "jsstring \<Rightarrow> jsstring" where
  "route_of dmn = js ''/'' @ replace_first 0x20 0x2D dmn"

text \<open>\<open>checkMobile\<close>, run on mount and on every resize, with \<open>window.innerWidth\<close>.\<close>

definition checkMobile :: "RotatableMotherboard \<Rightarrow> nat \<Rightarrow> RotatableMotherboard" where
  "checkMobile st innerWidth = st\<lparr>isMobile := innerWidth < 768\<rparr>"







subsection \<open>Pending navigation timers\<close>

text \<open>
  The page around the scene: the clock in milliseconds, the timers that \<open>setTimeout\<close>
  has registered and that have not fired (due time and route, in creation order), and
  the current location. Timers follow the HTML timer rules: a timer fires once its
  delay has elapsed, the earlier due time first and creation order among equal due
  times; firing runs \<open>navigate(route)\<close>. The scene is shown at \<open>/\<close> only, so a region can
  be clicked, and the scene's resize listener runs \<open>checkMobile\<close>, only there. Nothing
  in the source calls \<open>clearTimeout\<close>.
\<close>

record Page =
  scene :: RotatableMotherboard
  clock :: nat
  pending :: "(nat \<times> jsstring) list"
  location :: jsstring

datatype input = ClickOn jsstring vec3 | Elapse nat | Resize nat

definition fire_due :: "Page \<Rightarrow> Page" where
  "fire_due w =
     (let due = sort_key fst (filter (\<lambda>t. fst t \<le> clock w) (pending w))
      in w\<lparr>pending := filter (\<lambda>t. \<not> fst t \<le> clock w) (pending w),
            location := foldl (\<lambda>l t. snd t) (location w) due\<rparr>)"

fun page_step :: "Page \<Rightarrow> input \<Rightarrow> Page" where
  "page_step w (ClickOn dmn pos) =
     (if location w = js ''/'' then
        (let (st, (duration, route)) = handleDomainClick (scene w) dmn pos
         in w\<lparr>scene := st, pending := pending w @ [(clock w + duration, route)]\<rparr>)
      else w)"
| "page_step w (Elapse d) = fire_due (w\<lparr>clock := clock w + d\<rparr>)"
| "page_step w (Resize innerWidth) =
     (if location w = js ''/'' then w\<lparr>scene := checkMobile (scene w) innerWidth\<rparr> else w)"

definition run :: "Page \<Rightarrow> input list \<Rightarrow> Page" where
  "run w evs = foldl page_step w evs"

fun clicks :: "input list \<Rightarrow> (jsstring \<times> vec3) list" where
  "clicks [] = []"
| "clicks (ClickOn dmn pos # evs) = (dmn, pos) # clicks evs"
| "clicks (Elapse d # evs) = clicks evs"
| "clicks (Resize innerWidth # evs) = clicks evs"

fun elapsed :: "input list \<Rightarrow> nat" where
  "elapsed [] = 0"
| "elapsed (ClickOn dmn pos # evs) = elapsed evs"
| "elapsed (Elapse d # evs) = d + elapsed evs"
| "elapsed (Resize innerWidth # evs) = elapsed evs"

text \<open>No resize of the sequence changes the viewport flag from \<open>b\<close>.\<close>

fun flag_kept :: "bool \<Rightarrow> input list \<Rightarrow> bool" where
  "flag_kept b [] = True"
| "flag_kept b (ClickOn dmn pos # evs) = flag_kept b evs"
| "flag_kept b (Elapse d # evs) = flag_kept b evs"
| "flag_kept b (Resize innerWidth # evs) = ((innerWidth < 768) = b \<and> flag_kept b evs)"

section \<open>Concrete page states used below\<close>

definition m_hello :: ManagementPage where
  "m_hello = m_handleAnswerChange m_init 1 (js ''hello'')"

definition m_long :: ManagementPage where
  "m_long = m_handleAnswerChange m_init 1 (js ''fetch, decode, execute'')"

definition m_spaces :: ManagementPage where
  "m_spaces = m_handleAnswerChange m_init 1 (js ''   '')"

definition d_spaces :: DesignPage where
  "d_spaces = d_handleAnswerChange d_init 1 (js ''   '')"

definition r_spaces :: ResearchPage where
  "r_spaces = r_handleAnswerChange r_init 1 (js ''   '')"

definition t_spaces :: TechPage where
  "t_spaces = t_handleAnswerChange t_init 1 (js ''   '')"

definition c_spaces :: CompetitiveCodingPage where
  "c_spaces = updateAnswer c_init 1 Code (js ''   '')"

definition p_spaces :: CompetitiveCoding where
  "p_spaces = p_init\<lparr>p_solutions := (p_solutions p_init)[0 := js ''   '']\<rparr>"

definition d_typed :: DesignPage where
  "d_typed = d_handleAnswerChange d_init 1 (js ''hello'')"

definition r_typed :: ResearchPage where
  "r_typed = r_handleAnswerChange r_init 1 (js ''hello'')"

definition t_typed :: TechPage where
  "t_typed = t_handleAnswerChange t_init 1 (js ''hello'')"

definition c_typed :: CompetitiveCodingPage where
  "c_typed = updateAnswer (updateAnswer c_init 1 Code (js ''hello'')) 1 Explanation (js ''hello'')"

definition d_done :: DesignPage where
  "d_done = d_handleSubmitAnswer d_typed 1"

definition r_done :: ResearchPage where
  "r_done = r_handleSubmitAnswer r_typed 1"

definition t_done :: TechPage where
  "t_done = t_handleSubmitAnswer t_typed 1"

definition card_events :: "card_event list" where
  "card_events = [Type 1 (js ''edited''), Click 1, Type 2 (js ''hello''), Click 2]"

definition c_done :: CompetitiveCodingPage where
  "c_done = c_step c_typed (Submit 1)"

text \<open>
  The scene as mounted on a wide viewport, after a click on the CPU region, and with the
  pointer pressed at (100, 200) on an 800 by 600 canvas; the page around it, two clicks
  300 ms apart, and two clicks 100 ms apart with a resize to a narrow viewport between.
\<close>

definition scene_init :: RotatableMotherboard where
  "scene_init = \<lparr>isDragging = False, dragStart = (0, 0), rotation = (0, 0),
     targetRotation = (0, 0), isZooming = False, zoomTarget = None, isMobile = False,
     groupRef = Some (pi / 2, 0, 0), camera = (0, 0, 20)\<rparr>"




definition page_init :: Page where
  "page_init = \<lparr>scene = scene_init, clock = 0, pending = [], location = js ''/''\<rparr>"

definition rapid_clicks :: "input list" where
  "rapid_clicks = [ClickOn (js ''tech'') (1.6, 0.28, -0.6), Elapse 300,
                   ClickOn (js ''design'') (-4.5, 0, -1.0)]"

definition resize_clicks :: "input list" where
  "resize_clicks = [ClickOn (js ''tech'') (1.6, 0.28, -0.6), Elapse 100, Resize 390,
                    ClickOn (js ''design'') (-4.5, 0, -1.0)]"

definition p_typed :: CompetitiveCoding where
  "p_typed = p_init\<lparr>p_solutions := (p_solutions p_init)[0 := js ''hello'']\<rparr>"

section \<open>Strings\<close>

lemma trim_Nil: "trim [] = []"
  by (simp add: trim_def)

lemma length_js: "length (js s) = length s"
  by (simp add: js_def)

lemma js_eq_Nil: "js s = [] \<longleftrightarrow> s = []"
  by (simp add: js_def)

lemma trim_hello: "trim (js ''hello'') = js ''hello''"
  by (simp add: trim_def js_def isWhiteSpace_def)

lemma trim_long: "trim (js ''fetch, decode, execute'') = js ''fetch, decode, execute''"
  by (simp add: trim_def js_def isWhiteSpace_def)

lemma trim_spaces: "trim (js ''   '') = []"
  by (simp add: trim_def js_def isWhiteSpace_def)

lemma truthy_hello: "truthy_trim (Some (js ''hello''))"
  by (simp add: truthy_trim_def trim_hello js_eq_Nil)

section \<open>Submitting a blank answer\<close>

text \<open>
  Claim C2. On every quiz page, a submit for a question whose answer text is empty or
  only whitespace (or was never typed) returns the page state it was given: the
  submitted set or mapping, the score and every value derived from the state are as
  before. On CompetitiveCodingPage the answer is blank when the code or the explanation
  is; on CompetitiveCoding the question is the current problem.
\<close>

theorem blank_submit_changes_nothing:
  "(trim (shown (m_answers ms q)) = [] \<longrightarrow> m_submitAnswer ms q = ms)
   \<and> (trim (shown (d_answers ds q)) = [] \<longrightarrow> d_handleSubmitAnswer ds q = ds)
   \<and> (trim (shown (r_answers rs q)) = [] \<longrightarrow> r_handleSubmitAnswer rs q = rs)
   \<and> (trim (shown (t_answers ts q)) = [] \<longrightarrow> t_handleSubmitAnswer ts q = ts)
   \<and> (c_blank (c_answers cs q) \<longrightarrow> fst (c_submitAnswer cs q) = cs)
   \<and> (p_currentProblem ps < length (p_solutions ps)
        \<and> trim (p_solutions ps ! p_currentProblem ps) = [] \<longrightarrow> handleSubmit ps = Some ps)"
  by (auto simp: shown_def trim_Nil m_submitAnswer_def d_handleSubmitAnswer_def
      r_handleSubmitAnswer_def t_handleSubmitAnswer_def c_submitAnswer_def handleSubmit_def
      truthy_trim_def c_blank_def split: option.splits)

theorem blank_submit_changes_nothing_witness:
  "trim (shown (m_answers m_spaces 1)) = [] \<and> m_submitAnswer m_spaces 1 = m_spaces
   \<and> trim (shown (d_answers d_spaces 1)) = [] \<and> d_handleSubmitAnswer d_spaces 1 = d_spaces
   \<and> trim (shown (r_answers r_spaces 1)) = [] \<and> r_handleSubmitAnswer r_spaces 1 = r_spaces
   \<and> trim (shown (t_answers t_spaces 1)) = [] \<and> t_handleSubmitAnswer t_spaces 1 = t_spaces
   \<and> c_blank (c_answers c_spaces 1) \<and> fst (c_submitAnswer c_spaces 1) = c_spaces
   \<and> p_currentProblem p_spaces < length (p_solutions p_spaces)
   \<and> trim (p_solutions p_spaces ! p_currentProblem p_spaces) = []
   \<and> handleSubmit p_spaces = Some p_spaces"
proof -
  have h: "trim (shown (m_answers m_spaces 1)) = []"
     "trim (shown (d_answers d_spaces 1)) = []"
     "trim (shown (r_answers r_spaces 1)) = []"
     "trim (shown (t_answers t_spaces 1)) = []"
     "c_blank (c_answers c_spaces 1)"
     "p_currentProblem p_spaces < length (p_solutions p_spaces)"
     "trim (p_solutions p_spaces ! p_currentProblem p_spaces) = []"
    by (simp_all add: m_spaces_def d_spaces_def r_spaces_def t_spaces_def c_spaces_def
        p_spaces_def m_handleAnswerChange_def d_handleAnswerChange_def r_handleAnswerChange_def
        t_handleAnswerChange_def updateAnswer_def m_init_def d_init_def r_init_def t_init_def
        c_init_def p_init_def shown_def c_blank_def trim_spaces)
  from blank_submit_changes_nothing [of m_spaces 1 d_spaces r_spaces t_spaces c_spaces p_spaces] h
  show ?thesis
    by blast
qed

section \<open>The management page's length gate\<close>

text \<open>
  Claim C9. On the management page a submit changes the score only when the trimmed
  answer is longer than 10 characters; for an answer of the question on display whose
  trimmed length is between 1 and 10, the PROCESS button is enabled and both the
  handler and the click leave the page state, and so the total score, unchanged.
\<close>

theorem management_scores_only_above_ten:
  "(m_totalScore (m_submitAnswer st1 q1) \<noteq> m_totalScore st1 \<longrightarrow>
      (\<exists>a. m_answers st1 q1 = Some a \<and> 10 < length (trim a)))
   \<and> (m_current_id st2 = Some q2 \<and> m_answers st2 q2 = Some a2
        \<and> 1 \<le> length (trim a2) \<and> length (trim a2) \<le> 10 \<longrightarrow>
        \<not> m_submit_disabled st2 \<and> m_submitAnswer st2 q2 = st2 \<and> m_click_process st2 = st2)"
  by (auto simp: m_submitAnswer_def m_submit_disabled_def m_click_process_def truthy_trim_def
      split: option.splits if_splits)

theorem management_scores_only_above_ten_witness:
  "m_totalScore (m_submitAnswer m_long 1) \<noteq> m_totalScore m_long
   \<and> (\<exists>a. m_answers m_long 1 = Some a \<and> 10 < length (trim a))
   \<and> m_current_id m_hello = Some 1 \<and> m_answers m_hello 1 = Some (js ''hello'')
   \<and> 1 \<le> length (trim (js ''hello'')) \<and> length (trim (js ''hello'')) \<le> 10
   \<and> \<not> m_submit_disabled m_hello \<and> m_submitAnswer m_hello 1 = m_hello
   \<and> m_click_process m_hello = m_hello"
proof -
  have a: "m_totalScore (m_submitAnswer m_long 1) \<noteq> m_totalScore m_long"
    by (simp add: m_long_def m_handleAnswerChange_def m_init_def m_submitAnswer_def trim_long
        managementQuestions_def length_js js_eq_Nil)
  have b: "m_current_id m_hello = Some 1 \<and> m_answers m_hello 1 = Some (js ''hello'')
        \<and> 1 \<le> length (trim (js ''hello'')) \<and> length (trim (js ''hello'')) \<le> 10"
    by (simp add: m_hello_def m_handleAnswerChange_def m_init_def m_current_id_def
        managementQuestions_def trim_hello length_js)
  from management_scores_only_above_ten [of m_long 1 m_hello 1 "js ''hello''"] a b
  show ?thesis
    by blast
qed

section \<open>Submitting a non-blank answer\<close>

text \<open>
  Claim C1, as stated, fails on the management page: question 1 holds the non-blank
  answer \<open>hello\<close>, the PROCESS button is enabled, and neither the click nor the handler
  adds the 10 points; and with an answer longer than 10 characters two clicks add the
  points twice, the page keeping no submitted marker.
\<close>

theorem nonblank_submit_counterexample:
  "m_answers m_hello 1 = Some (js ''hello'') \<and> trim (js ''hello'') \<noteq> []
   \<and> \<not> m_submit_disabled m_hello
   \<and> m_totalScore (m_click_process m_hello) = m_totalScore m_hello
   \<and> m_totalScore (m_submitAnswer m_hello 1) \<noteq> m_totalScore m_hello + 10
   \<and> m_totalScore (m_click_process (m_click_process m_long)) = m_totalScore m_long + 20"
  by (simp add: m_hello_def m_long_def m_handleAnswerChange_def m_init_def m_submitAnswer_def
      m_click_process_def m_submit_disabled_def m_current_id_def truthy_trim_def
      trim_hello trim_long managementQuestions_def length_js js_eq_Nil)

lemma array_set_marks:
  "array_set xs i True ! i = True \<and> i < length (array_set xs i True)
   \<and> array_set (array_set xs i True) i True = array_set xs i True"
  by (auto simp: array_set_def nth_append list_update_append)

lemma filter_update_True:
  "i < length xs \<Longrightarrow> \<not> xs ! i \<Longrightarrow>
   length (filter (\<lambda>b. b) (xs[i := True])) = Suc (length (filter (\<lambda>b. b) xs))"
proof (induction xs arbitrary: i)
  case Nil
  then show ?case by simp
next
  case (Cons x xs)
  then show ?case by (cases i) auto
qed

lemma d_progress_inv:
  "d_submittedQuestions st \<subseteq> set designQuestions \<Longrightarrow>
   d_designProgress st = 20 * int (card (d_submittedQuestions st)) \<Longrightarrow>
   d_submittedQuestions (d_event st ev) \<subseteq> set designQuestions
   \<and> d_designProgress (d_event st ev) = 20 * int (card (d_submittedQuestions (d_event st ev)))"
proof (cases ev)
  case (Type q v)
  assume "d_submittedQuestions st \<subseteq> set designQuestions"
    and "d_designProgress st = 20 * int (card (d_submittedQuestions st))"
  with Type show ?thesis by (simp add: d_handleAnswerChange_def)
next
  case (Click q)
  assume sub: "d_submittedQuestions st \<subseteq> set designQuestions"
    and pr: "d_designProgress st = 20 * int (card (d_submittedQuestions st))"
  show ?thesis
  proof (cases "q \<in> set designQuestions \<and> \<not> d_button_disabled st q")
    case False
    with Click sub pr show ?thesis by auto
  next
    case True
    let ?S = "d_submittedQuestions st"
    from sub have fin: "finite ?S" by (rule finite_subset) simp
    from True have new: "q \<notin> ?S" by (simp add: d_button_disabled_def)
    from True sub have "insert q ?S \<subseteq> set designQuestions" by simp
    then have "card (insert q ?S) \<le> card (set designQuestions)"
      by (intro card_mono) simp_all
    also have "\<dots> \<le> 5" using card_length [of designQuestions] by (simp add: designQuestions_def)
    finally have le: "card (insert q ?S) \<le> 5" .
    from fin new have c: "card (insert q ?S) = Suc (card ?S)" by simp
    from True Click sub pr le c show ?thesis
      by (simp add: d_handleSubmitAnswer_def d_button_disabled_def)
  qed
qed

lemma d_progress_run:
  "d_submittedQuestions st \<subseteq> set designQuestions \<Longrightarrow>
   d_designProgress st = 20 * int (card (d_submittedQuestions st)) \<Longrightarrow>
   d_designProgress (foldl d_event st evs) = 20 * int (card (d_submittedQuestions (foldl d_event st evs)))"
  by (induction evs arbitrary: st) (simp_all add: d_progress_inv)

lemma t_fan_inv:
  "t_submittedQuestions st \<subseteq> set techQuestions \<Longrightarrow>
   t_fanSpeed st = 60 + 8 * int (card (t_submittedQuestions st)) \<Longrightarrow>
   t_submittedQuestions (t_event st ev) \<subseteq> set techQuestions
   \<and> t_fanSpeed (t_event st ev) = 60 + 8 * int (card (t_submittedQuestions (t_event st ev)))"
proof (cases ev)
  case (Type q v)
  assume "t_submittedQuestions st \<subseteq> set techQuestions"
    and "t_fanSpeed st = 60 + 8 * int (card (t_submittedQuestions st))"
  with Type show ?thesis by (simp add: t_handleAnswerChange_def)
next
  case (Click q)
  assume sub: "t_submittedQuestions st \<subseteq> set techQuestions"
    and pr: "t_fanSpeed st = 60 + 8 * int (card (t_submittedQuestions st))"
  show ?thesis
  proof (cases "q \<in> set techQuestions \<and> \<not> t_button_disabled st q")
    case False
    with Click sub pr show ?thesis by auto
  next
    case True
    let ?S = "t_submittedQuestions st"
    from sub have fin: "finite ?S" by (rule finite_subset) simp
    from True have new: "q \<notin> ?S" by (simp add: t_button_disabled_def)
    from True sub have "insert q ?S \<subseteq> set techQuestions" by simp
    then have "card (insert q ?S) \<le> card (set techQuestions)"
      by (intro card_mono) simp_all
    also have "\<dots> \<le> 5" using card_length [of techQuestions] by (simp add: techQuestions_def)
    finally have le: "card (insert q ?S) \<le> 5" .
    from fin new have c: "card (insert q ?S) = Suc (card ?S)" by simp
    from True Click sub pr le c show ?thesis
      by (simp add: t_handleSubmitAnswer_def t_button_disabled_def)
  qed
qed

lemma t_fan_run:
  "t_submittedQuestions st \<subseteq> set techQuestions \<Longrightarrow>
   t_fanSpeed st = 60 + 8 * int (card (t_submittedQuestions st)) \<Longrightarrow>
   t_fanSpeed (foldl t_event st evs) = 60 + 8 * int (card (t_submittedQuestions (foldl t_event st evs)))"
  by (induction evs arbitrary: st) (simp_all add: t_fan_inv)

lemma progress_from_init:
  "d_designProgress (foldl d_event d_init evs)
     = 20 * int (card (d_submittedQuestions (foldl d_event d_init evs)))"
  "t_fanSpeed (foldl t_event t_init evs)
     = 60 + 8 * int (card (t_submittedQuestions (foldl t_event t_init evs)))"
  by (rule d_progress_run t_fan_run; simp add: d_init_def t_init_def)+

lemma handleSubmit_marks:
  assumes "p_currentProblem ps < length (p_solutions ps)"
    and "trim (p_solutions ps ! p_currentProblem ps) \<noteq> []"
  shows "handleSubmit ps
      = Some (ps\<lparr>p_submittedProblems :=
                   array_set (p_submittedProblems ps) (p_currentProblem ps) True\<rparr>)"
    and "handleSubmit (ps\<lparr>p_submittedProblems :=
                   array_set (p_submittedProblems ps) (p_currentProblem ps) True\<rparr>)
      = Some (ps\<lparr>p_submittedProblems :=
                   array_set (p_submittedProblems ps) (p_currentProblem ps) True\<rparr>)"
    and "array_set (p_submittedProblems ps) (p_currentProblem ps) True ! p_currentProblem ps"
  using assms array_set_marks [of "p_submittedProblems ps" "p_currentProblem ps"]
  by (simp_all add: handleSubmit_def)

lemma handleSubmit_counts:
  assumes "p_currentProblem ps < length (p_solutions ps)"
    and "trim (p_solutions ps ! p_currentProblem ps) \<noteq> []"
    and "p_currentProblem ps < length (p_submittedProblems ps)"
    and "\<not> p_submittedProblems ps ! p_currentProblem ps"
  shows "solvedProblems (ps\<lparr>p_submittedProblems :=
                   array_set (p_submittedProblems ps) (p_currentProblem ps) True\<rparr>)
      = solvedProblems ps + 1"
  using assms by (simp add: solvedProblems_def array_set_def filter_update_True)

text \<open>
  Claim C1, amended. On the design, research and tech pages a submit of a question
  whose answer is not blank puts the question in the submitted set, a second submit
  leaves the set as it is, and a second click on the card's button changes nothing; the
  design page adds 20 to its progress and the tech page 8 to its fan speed with each
  submit (capped at 100), so that from the initial state the progress is 20 times, and
  the fan speed 60 plus 8 times, the number of submitted questions. On the management
  page a submit whose trimmed answer is longer than 10 characters adds the point value
  of the question, 10 for question 1. On CompetitiveCodingPage a submit with non-blank
  code and explanation marks the question in \<open>submissions\<close>, adds its point value, and
  a second click on its button changes nothing. On CompetitiveCoding a submit of a
  non-blank solution marks the current problem, a second submit changes nothing, and a
  problem not marked before raises the solved count by one.
\<close>

theorem nonblank_submit_marks_and_scores:
  "(truthy_trim (d_answers ds q) \<longrightarrow>
      d_submittedQuestions (d_handleSubmitAnswer ds q) = insert q (d_submittedQuestions ds)
      \<and> d_submittedQuestions (d_handleSubmitAnswer (d_handleSubmitAnswer ds q) q)
          = d_submittedQuestions (d_handleSubmitAnswer ds q))
   \<and> (truthy_trim (r_answers rs q) \<longrightarrow>
      r_submittedQuestions (r_handleSubmitAnswer rs q) = insert q (r_submittedQuestions rs)
      \<and> r_handleSubmitAnswer (r_handleSubmitAnswer rs q) q = r_handleSubmitAnswer rs q)
   \<and> (truthy_trim (t_answers ts q) \<longrightarrow>
      t_submittedQuestions (t_handleSubmitAnswer ts q) = insert q (t_submittedQuestions ts)
      \<and> t_submittedQuestions (t_handleSubmitAnswer (t_handleSubmitAnswer ts q) q)
          = t_submittedQuestions (t_handleSubmitAnswer ts q))
   \<and> (m_answers ms mq = Some a \<and> 10 < length (trim a)
        \<and> find (\<lambda>x. m_id x = mq) managementQuestions = Some question \<longrightarrow>
      m_totalScore (m_submitAnswer ms mq) = m_totalScore ms + m_points question)
   \<and> (m_answers ms1 1 = Some a1 \<and> 10 < length (trim a1) \<longrightarrow>
      m_totalScore (m_submitAnswer ms1 1) = m_totalScore ms1 + 10)
   \<and> (c_answers cs cq = Some ca \<and> trim (code ca) \<noteq> [] \<and> trim (explanation ca) \<noteq> []
        \<and> find (\<lambda>x. c_id x = cq) questions = Some cquestion \<longrightarrow>
      c_submissions (fst (c_submitAnswer cs cq)) = (c_submissions cs)(cq \<mapsto> True)
      \<and> c_totalScore (fst (c_submitAnswer cs cq)) = c_totalScore cs + c_points cquestion
      \<and> c_step (c_step cs (Submit cq)) (Submit cq) = c_step cs (Submit cq))
   \<and> d_event (d_event ds (Click q)) (Click q) = d_event ds (Click q)
   \<and> r_event (r_event rs (Click q)) (Click q) = r_event rs (Click q)
   \<and> t_event (t_event ts (Click q)) (Click q) = t_event ts (Click q)
   \<and> (truthy_trim (d_answers ds q) \<longrightarrow>
      d_designProgress (d_handleSubmitAnswer ds q) = min 100 (d_designProgress ds + 20))
   \<and> (truthy_trim (t_answers ts q) \<longrightarrow>
      t_fanSpeed (t_handleSubmitAnswer ts q) = min 100 (t_fanSpeed ts + 8))
   \<and> d_designProgress (foldl d_event d_init evs)
       = 20 * int (card (d_submittedQuestions (foldl d_event d_init evs)))
   \<and> t_fanSpeed (foldl t_event t_init evs)
       = 60 + 8 * int (card (t_submittedQuestions (foldl t_event t_init evs)))
   \<and> (p_currentProblem ps < length (p_solutions ps)
        \<and> trim (p_solutions ps ! p_currentProblem ps) \<noteq> [] \<longrightarrow>
      handleSubmit ps
        = Some (ps\<lparr>p_submittedProblems :=
                     array_set (p_submittedProblems ps) (p_currentProblem ps) True\<rparr>)
      \<and> array_set (p_submittedProblems ps) (p_currentProblem ps) True ! p_currentProblem ps
      \<and> handleSubmit (ps\<lparr>p_submittedProblems :=
                     array_set (p_submittedProblems ps) (p_currentProblem ps) True\<rparr>)
        = Some (ps\<lparr>p_submittedProblems :=
                     array_set (p_submittedProblems ps) (p_currentProblem ps) True\<rparr>))
   \<and> (p_currentProblem ps1 < length (p_solutions ps1)
        \<and> trim (p_solutions ps1 ! p_currentProblem ps1) \<noteq> []
        \<and> p_currentProblem ps1 < length (p_submittedProblems ps1)
        \<and> \<not> p_submittedProblems ps1 ! p_currentProblem ps1 \<longrightarrow>
      solvedProblems (ps1\<lparr>p_submittedProblems :=
                     array_set (p_submittedProblems ps1) (p_currentProblem ps1) True\<rparr>)
        = solvedProblems ps1 + 1)"
proof (intro conjI impI)
  show "d_designProgress (foldl d_event d_init evs)
       = 20 * int (card (d_submittedQuestions (foldl d_event d_init evs)))"
    by (rule progress_from_init)
next
  show "t_fanSpeed (foldl t_event t_init evs)
       = 60 + 8 * int (card (t_submittedQuestions (foldl t_event t_init evs)))"
    by (rule progress_from_init)
next
  assume h: "p_currentProblem ps < length (p_solutions ps)
        \<and> trim (p_solutions ps ! p_currentProblem ps) \<noteq> []"
  then show "handleSubmit ps
        = Some (ps\<lparr>p_submittedProblems :=
                     array_set (p_submittedProblems ps) (p_currentProblem ps) True\<rparr>)"
    by (simp add: handleSubmit_marks)
  from h show "array_set (p_submittedProblems ps) (p_currentProblem ps) True ! p_currentProblem ps"
    by (simp add: handleSubmit_marks)
  from h show "handleSubmit (ps\<lparr>p_submittedProblems :=
                     array_set (p_submittedProblems ps) (p_currentProblem ps) True\<rparr>)
        = Some (ps\<lparr>p_submittedProblems :=
                     array_set (p_submittedProblems ps) (p_currentProblem ps) True\<rparr>)"
    using handleSubmit_marks(2) [of ps] by simp
next
  assume "p_currentProblem ps1 < length (p_solutions ps1)
        \<and> trim (p_solutions ps1 ! p_currentProblem ps1) \<noteq> []
        \<and> p_currentProblem ps1 < length (p_submittedProblems ps1)
        \<and> \<not> p_submittedProblems ps1 ! p_currentProblem ps1"
  then show "solvedProblems (ps1\<lparr>p_submittedProblems :=
                     array_set (p_submittedProblems ps1) (p_currentProblem ps1) True\<rparr>)
        = solvedProblems ps1 + 1"
    by (simp add: handleSubmit_counts)
next
  assume "m_answers ms mq = Some a \<and> 10 < length (trim a)
        \<and> find (\<lambda>x. m_id x = mq) managementQuestions = Some question"
  then show "m_totalScore (m_submitAnswer ms mq) = m_totalScore ms + m_points question"
    by (auto simp: m_submitAnswer_def trim_Nil)
next
  assume "m_answers ms1 1 = Some a1 \<and> 10 < length (trim a1)"
  then show "m_totalScore (m_submitAnswer ms1 1) = m_totalScore ms1 + 10"
    by (auto simp: m_submitAnswer_def managementQuestions_def trim_Nil)
next
  assume h: "c_answers cs cq = Some ca \<and> trim (code ca) \<noteq> [] \<and> trim (explanation ca) \<noteq> []
        \<and> find (\<lambda>x. c_id x = cq) questions = Some cquestion"
  then show "c_submissions (fst (c_submitAnswer cs cq)) = (c_submissions cs)(cq \<mapsto> True)"
    by (simp add: c_submitAnswer_def)
  from h show "c_totalScore (fst (c_submitAnswer cs cq)) = c_totalScore cs + c_points cquestion"
    by (simp add: c_submitAnswer_def)
  from h show "c_step (c_step cs (Submit cq)) (Submit cq) = c_step cs (Submit cq)"
    by (simp add: c_submitAnswer_def c_submit_disabled_def)
qed (simp_all add: d_handleSubmitAnswer_def r_handleSubmitAnswer_def t_handleSubmitAnswer_def
    d_button_disabled_def r_button_disabled_def t_button_disabled_def)

theorem nonblank_submit_marks_and_scores_witness:
  "truthy_trim (d_answers d_typed 1)
   \<and> d_submittedQuestions (d_handleSubmitAnswer d_typed 1) = insert 1 (d_submittedQuestions d_typed)
   \<and> d_submittedQuestions (d_handleSubmitAnswer (d_handleSubmitAnswer d_typed 1) 1)
       = d_submittedQuestions (d_handleSubmitAnswer d_typed 1)
   \<and> d_designProgress (d_handleSubmitAnswer d_typed 1) = min 100 (d_designProgress d_typed + 20)
   \<and> truthy_trim (r_answers r_typed 1)
   \<and> r_submittedQuestions (r_handleSubmitAnswer r_typed 1) = insert 1 (r_submittedQuestions r_typed)
   \<and> r_handleSubmitAnswer (r_handleSubmitAnswer r_typed 1) 1 = r_handleSubmitAnswer r_typed 1
   \<and> truthy_trim (t_answers t_typed 1)
   \<and> t_submittedQuestions (t_handleSubmitAnswer t_typed 1) = insert 1 (t_submittedQuestions t_typed)
   \<and> t_fanSpeed (t_handleSubmitAnswer t_typed 1) = min 100 (t_fanSpeed t_typed + 8)
   \<and> m_answers m_long 1 = Some (js ''fetch, decode, execute'')
   \<and> 10 < length (trim (js ''fetch, decode, execute''))
   \<and> m_totalScore (m_submitAnswer m_long 1) = m_totalScore m_long + 10
   \<and> c_answers c_typed 1 = Some \<lparr>questionId = 1, code = js ''hello'', explanation = js ''hello''\<rparr>
   \<and> c_submissions (fst (c_submitAnswer c_typed 1)) = (c_submissions c_typed)(1 \<mapsto> True)
   \<and> c_totalScore (fst (c_submitAnswer c_typed 1)) = c_totalScore c_typed + 100
   \<and> c_step (c_step c_typed (Submit 1)) (Submit 1) = c_step c_typed (Submit 1)
   \<and> p_currentProblem p_typed < length (p_solutions p_typed)
   \<and> trim (p_solutions p_typed ! p_currentProblem p_typed) \<noteq> []
   \<and> p_currentProblem p_typed < length (p_submittedProblems p_typed)
   \<and> \<not> p_submittedProblems p_typed ! p_currentProblem p_typed
   \<and> handleSubmit p_typed
       = Some (p_typed\<lparr>p_submittedProblems :=
                 array_set (p_submittedProblems p_typed) (p_currentProblem p_typed) True\<rparr>)
   \<and> handleSubmit (p_typed\<lparr>p_submittedProblems :=
                 array_set (p_submittedProblems p_typed) (p_currentProblem p_typed) True\<rparr>)
       = Some (p_typed\<lparr>p_submittedProblems :=
                 array_set (p_submittedProblems p_typed) (p_currentProblem p_typed) True\<rparr>)
   \<and> solvedProblems (p_typed\<lparr>p_submittedProblems :=
                 array_set (p_submittedProblems p_typed) (p_currentProblem p_typed) True\<rparr>)
       = solvedProblems p_typed + 1"
proof -
  have h: "truthy_trim (d_answers d_typed 1)" "truthy_trim (r_answers r_typed 1)"
      "truthy_trim (t_answers t_typed 1)"
    by (simp_all add: d_typed_def r_typed_def t_typed_def d_handleAnswerChange_def
        r_handleAnswerChange_def t_handleAnswerChange_def truthy_hello)
  have m: "m_answers m_long 1 = Some (js ''fetch, decode, execute'')
        \<and> 10 < length (trim (js ''fetch, decode, execute''))
        \<and> find (\<lambda>x. m_id x = 1) managementQuestions = Some \<lparr>m_id = 1, m_points = 10\<rparr>"
    by (simp add: m_long_def m_handleAnswerChange_def trim_long length_js managementQuestions_def)
  have c: "c_answers c_typed 1 = Some \<lparr>questionId = 1, code = js ''hello'', explanation = js ''hello''\<rparr>
        \<and> trim (code \<lparr>questionId = 1, code = js ''hello'', explanation = js ''hello''\<rparr>) \<noteq> []
        \<and> trim (explanation \<lparr>questionId = 1, code = js ''hello'', explanation = js ''hello''\<rparr>) \<noteq> []
        \<and> find (\<lambda>x. c_id x = 1) questions = Some \<lparr>c_id = 1, c_points = 100\<rparr>"
    by (simp add: c_typed_def updateAnswer_def c_init_def trim_hello js_eq_Nil questions_def)
  have p: "p_currentProblem p_typed < length (p_solutions p_typed)"
    "trim (p_solutions p_typed ! p_currentProblem p_typed) \<noteq> []"
    "p_currentProblem p_typed < length (p_submittedProblems p_typed)"
    "\<not> p_submittedProblems p_typed ! p_currentProblem p_typed"
    by (simp_all add: p_typed_def p_init_def trim_hello js_eq_Nil)
  note t = nonblank_submit_marks_and_scores [of d_typed 1 r_typed t_typed m_long 1
      "js ''fetch, decode, execute''" "\<lparr>m_id = 1, m_points = 10\<rparr>" m_long
      "js ''fetch, decode, execute''" c_typed 1
      "\<lparr>questionId = 1, code = js ''hello'', explanation = js ''hello''\<rparr>"
      "\<lparr>c_id = 1, c_points = 100\<rparr>" card_events p_typed p_typed]
  from t c have cc: "c_submissions (fst (c_submitAnswer c_typed 1)) = (c_submissions c_typed)(1 \<mapsto> True)
      \<and> c_totalScore (fst (c_submitAnswer c_typed 1)) = c_totalScore c_typed + 100
      \<and> c_step (c_step c_typed (Submit 1)) (Submit 1) = c_step c_typed (Submit 1)"
    by simp
  from t m have mm: "m_totalScore (m_submitAnswer m_long 1) = m_totalScore m_long + 10"
    by blast
  from t h p m c cc mm show ?thesis
    by blast
qed

section \<open>Submission is final on the design, research and tech pages\<close>

lemma d_event_grows: "d_submittedQuestions st \<subseteq> d_submittedQuestions (d_event st ev)"
  by (cases ev) (auto simp: d_handleSubmitAnswer_def d_handleAnswerChange_def)

lemma d_event_frozen:
  "q \<in> d_submittedQuestions st \<Longrightarrow> d_answers (d_event st ev) q = d_answers st q"
  by (cases ev)
    (auto simp: d_handleSubmitAnswer_def d_handleAnswerChange_def d_textarea_disabled_def)

lemma d_run_frozen:
  "d_submittedQuestions st \<subseteq> d_submittedQuestions (foldl d_event st evs)
   \<and> (q \<in> d_submittedQuestions st \<longrightarrow> d_answers (foldl d_event st evs) q = d_answers st q)"
proof (induction evs arbitrary: st)
  case Nil
  show ?case by simp
next
  case (Cons ev evs)
  from Cons.IH [of "d_event st ev"] d_event_grows [of st ev] d_event_frozen [of q st ev]
  show ?case by auto
qed

lemma r_event_grows: "r_submittedQuestions st \<subseteq> r_submittedQuestions (r_event st ev)"
  by (cases ev) (auto simp: r_handleSubmitAnswer_def r_handleAnswerChange_def)

lemma r_event_frozen:
  "q \<in> r_submittedQuestions st \<Longrightarrow> r_answers (r_event st ev) q = r_answers st q"
  by (cases ev)
    (auto simp: r_handleSubmitAnswer_def r_handleAnswerChange_def r_textarea_disabled_def)

lemma r_run_frozen:
  "r_submittedQuestions st \<subseteq> r_submittedQuestions (foldl r_event st evs)
   \<and> (q \<in> r_submittedQuestions st \<longrightarrow> r_answers (foldl r_event st evs) q = r_answers st q)"
proof (induction evs arbitrary: st)
  case Nil
  show ?case by simp
next
  case (Cons ev evs)
  from Cons.IH [of "r_event st ev"] r_event_grows [of st ev] r_event_frozen [of q st ev]
  show ?case by auto
qed

lemma t_event_grows: "t_submittedQuestions st \<subseteq> t_submittedQuestions (t_event st ev)"
  by (cases ev) (auto simp: t_handleSubmitAnswer_def t_handleAnswerChange_def)

lemma t_event_frozen:
  "q \<in> t_submittedQuestions st \<Longrightarrow> t_answers (t_event st ev) q = t_answers st q"
  by (cases ev)
    (auto simp: t_handleSubmitAnswer_def t_handleAnswerChange_def t_textarea_disabled_def)

lemma t_run_frozen:
  "t_submittedQuestions st \<subseteq> t_submittedQuestions (foldl t_event st evs)
   \<and> (q \<in> t_submittedQuestions st \<longrightarrow> t_answers (foldl t_event st evs) q = t_answers st q)"
proof (induction evs arbitrary: st)
  case Nil
  show ?case by simp
next
  case (Cons ev evs)
  from Cons.IH [of "t_event st ev"] t_event_grows [of st ev] t_event_frozen [of q st ev]
  show ?case by auto
qed

text \<open>
  Claim C8. On the design, research and tech pages, after any sequence of typing and
  clicking on the cards the submitted set contains the set it started from, and a
  question that was in it still has the answer text it had, with its textarea and its
  button disabled.
\<close>

theorem submitted_is_final:
  "(d_submittedQuestions ds \<subseteq> d_submittedQuestions (foldl d_event ds evs)
    \<and> (q \<in> d_submittedQuestions ds \<longrightarrow>
         d_answers (foldl d_event ds evs) q = d_answers ds q
         \<and> d_textarea_disabled (foldl d_event ds evs) q
         \<and> d_button_disabled (foldl d_event ds evs) q))
   \<and> (r_submittedQuestions rs \<subseteq> r_submittedQuestions (foldl r_event rs evs)
    \<and> (q \<in> r_submittedQuestions rs \<longrightarrow>
         r_answers (foldl r_event rs evs) q = r_answers rs q
         \<and> r_textarea_disabled (foldl r_event rs evs) q
         \<and> r_button_disabled (foldl r_event rs evs) q))
   \<and> (t_submittedQuestions ts \<subseteq> t_submittedQuestions (foldl t_event ts evs)
    \<and> (q \<in> t_submittedQuestions ts \<longrightarrow>
         t_answers (foldl t_event ts evs) q = t_answers ts q
         \<and> t_textarea_disabled (foldl t_event ts evs) q
         \<and> t_button_disabled (foldl t_event ts evs) q))"
  using d_run_frozen [of ds evs q] r_run_frozen [of rs evs q] t_run_frozen [of ts evs q]
  by (auto simp: d_textarea_disabled_def d_button_disabled_def r_textarea_disabled_def
      r_button_disabled_def t_textarea_disabled_def t_button_disabled_def)

theorem submitted_is_final_witness:
  "1 \<in> d_submittedQuestions d_done
   \<and> d_submittedQuestions d_done \<subseteq> d_submittedQuestions (foldl d_event d_done card_events)
   \<and> d_answers (foldl d_event d_done card_events) 1 = d_answers d_done 1
   \<and> d_textarea_disabled (foldl d_event d_done card_events) 1
   \<and> d_button_disabled (foldl d_event d_done card_events) 1
   \<and> 1 \<in> r_submittedQuestions r_done
   \<and> r_answers (foldl r_event r_done card_events) 1 = r_answers r_done 1
   \<and> r_textarea_disabled (foldl r_event r_done card_events) 1
   \<and> r_button_disabled (foldl r_event r_done card_events) 1
   \<and> 1 \<in> t_submittedQuestions t_done
   \<and> t_answers (foldl t_event t_done card_events) 1 = t_answers t_done 1
   \<and> t_textarea_disabled (foldl t_event t_done card_events) 1
   \<and> t_button_disabled (foldl t_event t_done card_events) 1"
proof -
  have h: "1 \<in> d_submittedQuestions d_done" "1 \<in> r_submittedQuestions r_done"
      "1 \<in> t_submittedQuestions t_done"
    by (simp_all add: d_done_def r_done_def t_done_def d_typed_def r_typed_def t_typed_def
        d_handleSubmitAnswer_def r_handleSubmitAnswer_def t_handleSubmitAnswer_def
        d_handleAnswerChange_def r_handleAnswerChange_def t_handleAnswerChange_def
        truthy_hello)
  from submitted_is_final [of d_done card_events 1 r_done t_done] h show ?thesis
    by blast
qed

section \<open>Score and submissions on CompetitiveCodingPage\<close>

lemma c_step_inv:
  "c_totalScore st = c_marked_points st \<Longrightarrow>
   c_totalScore (c_step st ev) = c_marked_points (c_step st ev)"
proof (cases ev)
  case (Edit q f v)
  then show ?thesis if "c_totalScore st = c_marked_points st"
    using that by (simp add: updateAnswer_def c_marked_points_def)
next
  case (Select q)
  then show ?thesis if "c_totalScore st = c_marked_points st"
    using that by (simp add: c_marked_points_def)
next
  case (Submit q)
  then show ?thesis if "c_totalScore st = c_marked_points st"
    using that
    by (auto simp: c_marked_points_def c_submitAnswer_def c_submit_disabled_def questions_def
        split: option.splits)
qed

lemma c_run_inv:
  "c_totalScore st = c_marked_points st \<Longrightarrow>
   c_totalScore (foldl c_step st evs) = c_marked_points (foldl c_step st evs)"
  by (induction evs arbitrary: st) (simp_all add: c_step_inv)

lemma c_init_inv: "c_totalScore c_init = c_marked_points c_init"
  by (simp add: c_init_def c_marked_points_def questions_def)

lemma c_done_marked: "c_submissions c_done 1 = Some True"
  by (simp add: c_done_def c_typed_def updateAnswer_def c_init_def c_submitAnswer_def
      c_submit_disabled_def questions_def trim_hello js_eq_Nil)

text \<open>
  Claim C10. On CompetitiveCodingPage (the component with \<open>totalScore\<close> and
  \<open>submissions\<close>), after any sequence of edits, question selections and submit clicks
  from the initial state the total score is the sum of the points of the questions
  marked in \<open>submissions\<close>, and every single operation keeps that equality. An entry of
  \<open>submissions\<close> changes only by a submit click on that question whose code and
  explanation are both non-blank, and it becomes \<open>true\<close>. Once a question is marked
  its button is disabled, a click on it changes nothing and the mark stays. Edits and
  selections change neither the score nor \<open>submissions\<close>.
\<close>

theorem score_is_sum_of_marked:
  "c_totalScore (foldl c_step c_init evs) = c_marked_points (foldl c_step c_init evs)
   \<and> (c_totalScore st = c_marked_points st \<longrightarrow>
        c_totalScore (c_step st ev) = c_marked_points (c_step st ev))
   \<and> (c_submissions (c_step st1 ev1) q \<noteq> c_submissions st1 q \<longrightarrow>
        ev1 = Submit q \<and> c_submissions (c_step st1 ev1) q = Some True
        \<and> (\<exists>a. c_answers st1 q = Some a \<and> trim (code a) \<noteq> [] \<and> trim (explanation a) \<noteq> []))
   \<and> (c_submissions st2 q2 = Some True \<longrightarrow>
        c_submit_disabled st2 q2 \<and> c_step st2 (Submit q2) = st2
        \<and> c_submissions (c_step st2 ev2) q2 = Some True)
   \<and> c_totalScore (c_step st3 (Edit q3 f v)) = c_totalScore st3
   \<and> c_submissions (c_step st3 (Edit q3 f v)) = c_submissions st3
   \<and> c_totalScore (c_step st3 (Select q3)) = c_totalScore st3
   \<and> c_submissions (c_step st3 (Select q3)) = c_submissions st3"
proof (intro conjI impI)
  show "c_totalScore (foldl c_step c_init evs) = c_marked_points (foldl c_step c_init evs)"
    by (rule c_run_inv [OF c_init_inv])
next
  assume "c_totalScore st = c_marked_points st"
  then show "c_totalScore (c_step st ev) = c_marked_points (c_step st ev)"
    by (rule c_step_inv)
next
  assume h: "c_submissions (c_step st1 ev1) q \<noteq> c_submissions st1 q"
  then show "ev1 = Submit q"
    by (cases ev1) (auto simp: updateAnswer_def c_submitAnswer_def split: option.splits if_splits)
  from h show "c_submissions (c_step st1 ev1) q = Some True"
    by (cases ev1) (auto simp: updateAnswer_def c_submitAnswer_def split: option.splits if_splits)
  from h show "\<exists>a. c_answers st1 q = Some a \<and> trim (code a) \<noteq> [] \<and> trim (explanation a) \<noteq> []"
    by (cases ev1) (auto simp: updateAnswer_def c_submitAnswer_def split: option.splits if_splits)
next
  assume h: "c_submissions st2 q2 = Some True"
  then show "c_submit_disabled st2 q2" by (simp add: c_submit_disabled_def)
  from h show "c_step st2 (Submit q2) = st2" by (simp add: c_submit_disabled_def)
  from h show "c_submissions (c_step st2 ev2) q2 = Some True"
    by (cases ev2) (auto simp: updateAnswer_def c_submitAnswer_def split: option.splits if_splits)
qed (simp_all add: updateAnswer_def)

theorem score_is_sum_of_marked_witness:
  "c_totalScore c_typed = c_marked_points c_typed
   \<and> c_totalScore (c_step c_typed (Submit 1)) = c_marked_points (c_step c_typed (Submit 1))
   \<and> c_submissions (c_step c_typed (Submit 1)) 1 \<noteq> c_submissions c_typed 1
   \<and> c_submissions (c_step c_typed (Submit 1)) 1 = Some True
   \<and> (\<exists>a. c_answers c_typed 1 = Some a \<and> trim (code a) \<noteq> [] \<and> trim (explanation a) \<noteq> [])
   \<and> c_submissions c_done 1 = Some True
   \<and> c_submit_disabled c_done 1 \<and> c_step c_done (Submit 1) = c_done
   \<and> c_submissions (c_step c_done (Edit 1 Code [])) 1 = Some True"
proof -
  have a: "c_totalScore c_typed = c_marked_points c_typed"
    by (simp add: c_typed_def updateAnswer_def c_init_def c_marked_points_def questions_def)
  have b: "c_submissions (c_step c_typed (Submit 1)) 1 \<noteq> c_submissions c_typed 1"
    using c_done_marked by (simp add: c_done_def) (simp add: c_typed_def updateAnswer_def c_init_def)
  from score_is_sum_of_marked
      [of "[]" c_typed "Submit 1" c_typed "Submit 1" 1 c_done 1 "Edit 1 Code []"]
    a b c_done_marked
  show ?thesis
    by blast
qed

section \<open>Clicking a region of the board\<close>

text \<open>
  Claim C7. A click on a clickable region passes to the domain-click handler the domain
  tag and the anchor position wired to that region in the layout, whatever the hover
  state of the region and the viewport flag of the layout: two clicks on the same
  region pass the same pair, and the five pairs are the constants of the scene.
\<close>

theorem region_click_arguments_fixed:
  "ClickableComponent_onClick (MotherboardLayoutAccurate m1 ! i) h1
     = ClickableComponent_onClick (MotherboardLayoutAccurate m2 ! i) h2
   \<and> map (\<lambda>c. ClickableComponent_onClick c h) (MotherboardLayoutAccurate m)
     = [(js ''design'', (-4.5, 0, -1.0)), (js ''tech'', (1.6, 0.28, -0.6)),
        (js ''management'', (3.6, 0.35, 1.0)), (js ''competitive coding'', (-1.5, 0.06, 0.5)),
        (js ''research'', (0, 0.06, 2.0))]"
  by (simp add: ClickableComponent_onClick_def MotherboardLayoutAccurate_def)

lemma route_design: "js ''/'' @ replace_first 0x20 0x2D (js ''design'') = js ''/design''"
  by (simp add: js_def)

lemma route_tech: "js ''/'' @ replace_first 0x20 0x2D (js ''tech'') = js ''/tech''"
  by (simp add: js_def)

lemma route_management:
  "js ''/'' @ replace_first 0x20 0x2D (js ''management'') = js ''/management''"
  by (simp add: js_def)

lemma route_cc:
  "js ''/'' @ replace_first 0x20 0x2D (js ''competitive coding'') = js ''/competitive-coding''"
  by (simp add: js_def)

lemma route_research: "js ''/'' @ replace_first 0x20 0x2D (js ''research'') = js ''/research''"
  by (simp add: js_def)

lemma handleDomainClick_timer:
  "snd (handleDomainClick st dmn pos)
     = (if isMobile st then 2000 else 2500, js ''/'' @ replace_first 0x20 0x2D dmn)"
  by (simp add: handleDomainClick_def Let_def)

text \<open>
  Claim C3. Every domain click schedules one timer: its delay is 2000 ms when the
  viewport is narrow (inner width below 768) and 2500 ms otherwise, so strictly shorter
  on a narrow viewport, and its route is a slash followed by the domain tag with the
  first space replaced by a hyphen. For the five clickable regions these routes are
  /design, /tech, /management, /competitive-coding and /research, each a route of the
  application.
\<close>

theorem click_schedules_navigation:
  "snd (handleDomainClick st dmn pos)
     = (if isMobile st then 2000 else 2500, js ''/'' @ replace_first 0x20 0x2D dmn)
   \<and> fst (snd (handleDomainClick (checkMobile st0 innerWidth) d0 p0))
       = (if innerWidth < 768 then 2000 else 2500)
   \<and> fst (snd (handleDomainClick (st1\<lparr>isMobile := True\<rparr>) d1 p1))
       < fst (snd (handleDomainClick (st2\<lparr>isMobile := False\<rparr>) d2 p2))
   \<and> map (\<lambda>c. snd (snd (handleDomainClick st3 (domain c) (position c))))
         (MotherboardLayoutAccurate m)
       = [js ''/design'', js ''/tech'', js ''/management'', js ''/competitive-coding'',
          js ''/research'']
   \<and> list_all (\<lambda>c. snd (snd (handleDomainClick st3 (domain c) (position c))) \<in> set routes)
         (MotherboardLayoutAccurate m)"
  by (simp add: handleDomainClick_timer checkMobile_def MotherboardLayoutAccurate_def routes_def
      route_design route_tech route_management route_cc route_research)

theorem click_schedules_navigation_witness:
  "snd (handleDomainClick scene_init (js ''competitive coding'') (-1.5, 0.06, 0.5))
     = (2500, js ''/competitive-coding'')
   \<and> fst (snd (handleDomainClick (checkMobile scene_init 390) (js ''tech'') (1.6, 0.28, -0.6)))
       = 2000"
  using click_schedules_navigation [of scene_init "js ''competitive coding''"
      "(-1.5, 0.06, 0.5)" scene_init 390 "js ''tech''" "(1.6, 0.28, -0.6)"]
  by (simp add: scene_init_def route_cc)

section \<open>Dragging the board\<close>












section \<open>The spring back to rest\<close>









section \<open>Rapid clicks and their timers\<close>

lemma handleDomainClick_parts:
  "snd (handleDomainClick st dmn pos) = (duration_of st, route_of dmn)"
  "isMobile (fst (handleDomainClick st dmn pos)) = isMobile st"
  "zoomTarget (fst (handleDomainClick st dmn pos)) = Some pos"
  by (simp_all add: handleDomainClick_def Let_def duration_of_def route_of_def)

lemma duration_of_bounds: "2000 \<le> duration_of st \<and> duration_of st \<le> 2500"
  by (simp add: duration_of_def)

lemma click_appends:
  "location w = js ''/'' \<Longrightarrow>
   pending (page_step w (ClickOn dmn pos))
     = pending w @ [(clock w + duration_of (scene w), route_of dmn)]
   \<and> clock (page_step w (ClickOn dmn pos)) = clock w
   \<and> location (page_step w (ClickOn dmn pos)) = location w
   \<and> isMobile (scene (page_step w (ClickOn dmn pos))) = isMobile (scene w)
   \<and> zoomTarget (scene (page_step w (ClickOn dmn pos))) = Some pos"
  using handleDomainClick_parts [of "scene w" dmn pos]
  by (cases "handleDomainClick (scene w) dmn pos") (auto simp: duration_of_def)

lemma resize_keeps:
  "location w = js ''/'' \<Longrightarrow>
   pending (page_step w (Resize iw)) = pending w
   \<and> clock (page_step w (Resize iw)) = clock w
   \<and> location (page_step w (Resize iw)) = location w
   \<and> isMobile (scene (page_step w (Resize iw))) = (iw < 768)
   \<and> zoomTarget (scene (page_step w (Resize iw))) = zoomTarget (scene w)"
  by (simp add: checkMobile_def)

lemma elapse_quiet:
  assumes "\<forall>t \<in> set (pending w). clock w + d < fst t"
  shows "page_step w (Elapse d) = w\<lparr>clock := clock w + d\<rparr>"
proof -
  from assms have "filter (\<lambda>t. fst t \<le> clock w + d) (pending w) = []"
    by (auto simp: filter_empty_conv)
  moreover from assms have "filter (\<lambda>t. \<not> fst t \<le> clock w + d) (pending w) = pending w"
    by (auto simp: filter_id_conv)
  ultimately show ?thesis by (simp add: fire_due_def)
qed

lemma foldl_snd_last: "xs \<noteq> [] \<Longrightarrow> foldl (\<lambda>l t. snd t) l xs = snd (last xs)"
  by (induction xs rule: rev_induct) simp_all

lemma elapse_all:
  assumes "\<forall>t \<in> set (pending w). fst t \<le> clock w + d" and "pending w \<noteq> []"
  shows "pending (page_step w (Elapse d)) = []"
    and "location (page_step w (Elapse d)) = snd (last (sort_key fst (pending w)))"
proof -
  from assms(1) have f: "filter (\<lambda>t. fst t \<le> clock w + d) (pending w) = pending w"
    by (auto simp: filter_id_conv)
  from assms(1) have g: "filter (\<lambda>t. \<not> fst t \<le> clock w + d) (pending w) = []"
    by (auto simp: filter_empty_conv)
  from assms(2) have n: "sort_key fst (pending w) \<noteq> []"
    by (metis length_0_conv length_sort)
  from g show "pending (page_step w (Elapse d)) = []"
    by (simp add: fire_due_def)
  from f n show "location (page_step w (Elapse d)) = snd (last (sort_key fst (pending w)))"
    by (simp add: fire_due_def foldl_snd_last)
qed

lemma clicks_append: "clicks (evs @ [ev]) = clicks evs @ clicks [ev]"
  by (induction evs rule: clicks.induct) simp_all

lemma elapsed_append: "elapsed (evs @ [ev]) = elapsed evs + elapsed [ev]"
  by (induction evs rule: elapsed.induct) simp_all

lemma flag_kept_append: "flag_kept b (evs @ [ev]) = (flag_kept b evs \<and> flag_kept b [ev])"
  by (induction b evs rule: flag_kept.induct) simp_all

lemma run_snoc: "run w (evs @ [ev]) = page_step (run w evs) ev"
  by (simp add: run_def)

text \<open>
  While less time has passed than the shorter delay, nothing fires: the page is still at
  the scene and the timers are in click order, one per click, none of them due.
\<close>

lemma early_invariant:
  assumes "location w = js ''/''" and "pending w = []"
  shows "elapsed evs < 2000 \<Longrightarrow>
    location (run w evs) = js ''/''
    \<and> clock (run w evs) = clock w + elapsed evs
    \<and> (\<forall>t \<in> set (pending (run w evs)).
          clock w + 2000 \<le> fst t \<and> fst t \<le> clock (run w evs) + 2500)
    \<and> map snd (pending (run w evs)) = map (\<lambda>c. route_of (fst c)) (clicks evs)
    \<and> (clicks evs \<noteq> [] \<longrightarrow> zoomTarget (scene (run w evs)) = Some (snd (last (clicks evs))))"
proof (induction evs rule: rev_induct)
  case Nil
  from assms show ?case by (simp add: run_def)
next
  case (snoc ev evs)
  let ?w = "run w evs"
  from snoc.prems have lt: "elapsed evs < 2000"
    by (simp add: elapsed_append)
  note ih = snoc.IH [OF lt]
  from ih have loc: "location ?w = js ''/''" by simp
  show ?case
  proof (cases ev)
    case (ClickOn dmn pos)
    from click_appends [OF loc, of dmn pos] ih duration_of_bounds [of "scene ?w"] ClickOn
    show ?thesis
      by (auto simp: run_snoc clicks_append elapsed_append)
  next
    case (Elapse d)
    from snoc.prems Elapse have "elapsed evs + d < 2000"
      by (simp add: elapsed_append)
    with ih have "\<forall>t \<in> set (pending ?w). clock ?w + d < fst t"
      by auto
    from elapse_quiet [OF this] ih Elapse show ?thesis
      by (auto simp: run_snoc clicks_append elapsed_append)
  next
    case (Resize iw)
    from resize_keeps [OF loc, of iw] ih Resize show ?thesis
      by (auto simp: run_snoc clicks_append elapsed_append)
  qed
qed

text \<open>
  When no resize changes the viewport flag, the due times are moreover non-decreasing.
\<close>

lemma rapid_invariant:
  assumes "location w = js ''/''" and "pending w = []"
  shows "elapsed evs < duration_of (scene w) \<Longrightarrow> flag_kept (isMobile (scene w)) evs \<Longrightarrow>
    location (run w evs) = js ''/''
    \<and> isMobile (scene (run w evs)) = isMobile (scene w)
    \<and> clock (run w evs) = clock w + elapsed evs
    \<and> sorted (map fst (pending (run w evs)))
    \<and> (\<forall>t \<in> set (pending (run w evs)).
          clock w + duration_of (scene w) \<le> fst t
          \<and> fst t \<le> clock (run w evs) + duration_of (scene w))
    \<and> map snd (pending (run w evs)) = map (\<lambda>c. route_of (fst c)) (clicks evs)
    \<and> (clicks evs \<noteq> [] \<longrightarrow> zoomTarget (scene (run w evs)) = Some (snd (last (clicks evs))))"
proof (induction evs rule: rev_induct)
  case Nil
  from assms show ?case by (simp add: run_def)
next
  case (snoc ev evs)
  let ?w = "run w evs"
  from snoc.prems have lt: "elapsed evs < duration_of (scene w)"
    by (simp add: elapsed_append)
  from snoc.prems have fk: "flag_kept (isMobile (scene w)) evs"
    by (simp add: flag_kept_append)
  note ih = snoc.IH [OF lt fk]
  from ih have loc: "location ?w = js ''/''" by simp
  show ?case
  proof (cases ev)
    case (ClickOn dmn pos)
    from ih have mob: "duration_of (scene ?w) = duration_of (scene w)"
      by (simp add: duration_of_def)
    from click_appends [OF loc, of dmn pos] ih mob ClickOn show ?thesis
      by (auto simp: run_snoc clicks_append elapsed_append sorted_append)
  next
    case (Elapse d)
    from snoc.prems Elapse have "elapsed evs + d < duration_of (scene w)"
      by (simp add: elapsed_append)
    with ih have "\<forall>t \<in> set (pending ?w). clock ?w + d < fst t"
      by auto
    from elapse_quiet [OF this] ih Elapse show ?thesis
      by (auto simp: run_snoc clicks_append elapsed_append)
  next
    case (Resize iw)
    from snoc.prems Resize have "(iw < 768) = isMobile (scene w)"
      by (simp add: flag_kept_append)
    with resize_keeps [OF loc, of iw] ih Resize show ?thesis
      by (auto simp: run_snoc clicks_append elapsed_append)
  qed
qed

text \<open>
  Claim C6, as stated, fails when the viewport is resized between two clicks: a click
  on the heatsink on a wide viewport, a resize to a width of 390 after 100 ms and a
  click on the PCI slots leave the timers (2500, /tech) and (2100, /design) pending,
  and once both have fired the location is /tech, the route of the first click.
\<close>

theorem resize_between_clicks_counterexample:
  "clicks resize_clicks = [(js ''tech'', (1.6, 0.28, -0.6)), (js ''design'', (-4.5, 0, -1.0))]
   \<and> pending (run page_init resize_clicks) = [(2500, js ''/tech''), (2100, js ''/design'')]
   \<and> location (page_step (run page_init resize_clicks) (Elapse 2900)) = js ''/tech''
   \<and> route_of (fst (last (clicks resize_clicks))) = js ''/design''
   \<and> js ''/tech'' \<noteq> js ''/design''"
proof -
  have p: "pending (run page_init resize_clicks) = [(2500, js ''/tech''), (2100, js ''/design'')]"
    "clock (run page_init resize_clicks) = 100"
    by (simp_all add: run_def resize_clicks_def page_init_def scene_init_def fire_due_def
        handleDomainClick_def Let_def checkMobile_def route_tech route_design)
  have l: "location (page_step (run page_init resize_clicks) (Elapse 2900)) = js ''/tech''"
    by (simp add: fire_due_def p)
  have d: "js ''/tech'' \<noteq> js ''/design''"
    by (simp add: js_def)
  from p l d show ?thesis
    by (simp add: resize_clicks_def route_of_def route_design)
qed

text \<open>
  Claim C6, amended. Every click on a region schedules its own navigation timer, and no
  later click or resize removes one: from the scene with no timer pending, after any
  clicks, pauses and resizes that together last less than the shorter delay, one timer
  per click is pending, in click order and each for its click's route, and the zoom
  target is the last click's anchor; once the longer delay has passed all have fired
  and the location is the route of the timer that was due last (the later created
  among equal due times). When no resize between the clicks changes the viewport flag
  (and the clicks and pauses last less than the one delay), that is the timer of the
  last click: the last click's target and timer win.
\<close>

theorem clicks_keep_their_timers:
  "(location w = js ''/'' \<and> pending w = [] \<and> clicks evs \<noteq> [] \<and> elapsed evs < 2000
      \<and> 2500 \<le> d \<longrightarrow>
      length (pending (run w evs)) = length (clicks evs)
      \<and> map snd (pending (run w evs)) = map (\<lambda>c. route_of (fst c)) (clicks evs)
      \<and> location (run w evs) = js ''/''
      \<and> zoomTarget (scene (run w evs)) = Some (snd (last (clicks evs)))
      \<and> pending (page_step (run w evs) (ClickOn dmn pos))
          = pending (run w evs)
            @ [(clock (run w evs) + duration_of (scene (run w evs)), route_of dmn)]
      \<and> pending (page_step (run w evs) (Resize iw)) = pending (run w evs)
      \<and> pending (page_step (run w evs) (Elapse d)) = []
      \<and> location (page_step (run w evs) (Elapse d))
          = snd (last (sort_key fst (pending (run w evs)))))
   \<and> (location w1 = js ''/'' \<and> pending w1 = [] \<and> clicks evs1 \<noteq> []
      \<and> flag_kept (isMobile (scene w1)) evs1 \<and> elapsed evs1 < duration_of (scene w1)
      \<and> duration_of (scene w1) \<le> d1 \<longrightarrow>
      length (pending (run w1 evs1)) = length (clicks evs1)
      \<and> map snd (pending (run w1 evs1)) = map (\<lambda>c. route_of (fst c)) (clicks evs1)
      \<and> location (run w1 evs1) = js ''/''
      \<and> zoomTarget (scene (run w1 evs1)) = Some (snd (last (clicks evs1)))
      \<and> pending (page_step (run w1 evs1) (Elapse d1)) = []
      \<and> location (page_step (run w1 evs1) (Elapse d1)) = route_of (fst (last (clicks evs1))))"
proof (intro conjI impI)
  assume a: "location w = js ''/'' \<and> pending w = [] \<and> clicks evs \<noteq> [] \<and> elapsed evs < 2000
      \<and> 2500 \<le> d"
  let ?w = "run w evs"
  from a have inv: "location ?w = js ''/''
    \<and> clock ?w = clock w + elapsed evs
    \<and> (\<forall>t \<in> set (pending ?w). clock w + 2000 \<le> fst t \<and> fst t \<le> clock ?w + 2500)
    \<and> map snd (pending ?w) = map (\<lambda>c. route_of (fst c)) (clicks evs)
    \<and> (clicks evs \<noteq> [] \<longrightarrow> zoomTarget (scene ?w) = Some (snd (last (clicks evs))))"
    by (intro early_invariant) simp_all
  from inv show len: "length (pending ?w) = length (clicks evs)"
    by (metis length_map)
  with a have ne: "pending ?w \<noteq> []" by auto
  from inv a have due: "\<forall>t \<in> set (pending ?w). fst t \<le> clock ?w + d"
    by auto
  from inv show "map snd (pending ?w) = map (\<lambda>c. route_of (fst c)) (clicks evs)" by simp
  from inv show loc: "location ?w = js ''/''" by simp
  from inv a show "zoomTarget (scene ?w) = Some (snd (last (clicks evs)))" by simp
  from click_appends [OF loc, of dmn pos]
  show "pending (page_step ?w (ClickOn dmn pos))
      = pending ?w @ [(clock ?w + duration_of (scene ?w), route_of dmn)]"
    by simp
  from resize_keeps [OF loc, of iw]
  show "pending (page_step ?w (Resize iw)) = pending ?w" by simp
  from elapse_all [OF due ne] show "pending (page_step ?w (Elapse d)) = []"
    and "location (page_step ?w (Elapse d)) = snd (last (sort_key fst (pending ?w)))"
    by simp_all
next
  assume a: "location w1 = js ''/'' \<and> pending w1 = [] \<and> clicks evs1 \<noteq> []
      \<and> flag_kept (isMobile (scene w1)) evs1 \<and> elapsed evs1 < duration_of (scene w1)
      \<and> duration_of (scene w1) \<le> d1"
  let ?w = "run w1 evs1"
  from a have inv: "location ?w = js ''/''
    \<and> isMobile (scene ?w) = isMobile (scene w1)
    \<and> clock ?w = clock w1 + elapsed evs1
    \<and> sorted (map fst (pending ?w))
    \<and> (\<forall>t \<in> set (pending ?w).
          clock w1 + duration_of (scene w1) \<le> fst t
          \<and> fst t \<le> clock ?w + duration_of (scene w1))
    \<and> map snd (pending ?w) = map (\<lambda>c. route_of (fst c)) (clicks evs1)
    \<and> (clicks evs1 \<noteq> [] \<longrightarrow> zoomTarget (scene ?w) = Some (snd (last (clicks evs1))))"
    by (intro rapid_invariant) simp_all
  from inv show len: "length (pending ?w) = length (clicks evs1)"
    by (metis length_map)
  with a have ne: "pending ?w \<noteq> []" by auto
  from inv a have due: "\<forall>t \<in> set (pending ?w). fst t \<le> clock ?w + d1"
    by auto
  from inv have srt: "sort_key fst (pending ?w) = pending ?w"
    by (simp add: sort_key_id_if_sorted)
  from inv have "last (map snd (pending ?w)) = last (map (\<lambda>c. route_of (fst c)) (clicks evs1))"
    by simp
  with ne a have lst: "snd (last (pending ?w)) = route_of (fst (last (clicks evs1)))"
    by (simp add: last_map)
  from inv show "map snd (pending ?w) = map (\<lambda>c. route_of (fst c)) (clicks evs1)" by simp
  from inv show "location ?w = js ''/''" by simp
  from inv a show "zoomTarget (scene ?w) = Some (snd (last (clicks evs1)))" by simp
  from elapse_all [OF due ne] srt lst show "pending (page_step ?w (Elapse d1)) = []"
    and "location (page_step ?w (Elapse d1)) = route_of (fst (last (clicks evs1)))"
    by simp_all
qed

theorem clicks_keep_their_timers_witness:
  "location page_init = js ''/'' \<and> pending page_init = []
   \<and> clicks resize_clicks \<noteq> [] \<and> elapsed resize_clicks < 2000
   \<and> length (pending (run page_init resize_clicks)) = length (clicks resize_clicks)
   \<and> location (run page_init resize_clicks) = js ''/''
   \<and> pending (page_step (run page_init resize_clicks) (Elapse 2900)) = []
   \<and> location (page_step (run page_init resize_clicks) (Elapse 2900))
       = snd (last (sort_key fst (pending (run page_init resize_clicks))))
   \<and> clicks rapid_clicks \<noteq> [] \<and> flag_kept (isMobile (scene page_init)) rapid_clicks
   \<and> elapsed rapid_clicks < duration_of (scene page_init)
   \<and> duration_of (scene page_init) \<le> 2500
   \<and> length (pending (run page_init rapid_clicks)) = 2
   \<and> map snd (pending (run page_init rapid_clicks)) = [js ''/tech'', js ''/design'']
   \<and> zoomTarget (scene (run page_init rapid_clicks)) = Some (-4.5, 0, -1.0)
   \<and> pending (page_step (run page_init rapid_clicks) (Elapse 2500)) = []
   \<and> location (page_step (run page_init rapid_clicks) (Elapse 2500)) = js ''/design''"
proof -
  have h: "location page_init = js ''/''" "pending page_init = []"
    "clicks resize_clicks \<noteq> []" "elapsed resize_clicks < 2000"
    "clicks rapid_clicks \<noteq> []" "flag_kept (isMobile (scene page_init)) rapid_clicks"
    "elapsed rapid_clicks < duration_of (scene page_init)"
    "duration_of (scene page_init) \<le> 2500"
    by (simp_all add: page_init_def rapid_clicks_def resize_clicks_def duration_of_def
        scene_init_def)
  have c: "clicks rapid_clicks = [(js ''tech'', (1.6, 0.28, -0.6)), (js ''design'', (-4.5, 0, -1.0))]"
    by (simp add: rapid_clicks_def)
  note t = clicks_keep_their_timers [of page_init resize_clicks 2900 "js ''tech''" "(0, 0, 0)" 390
      page_init rapid_clicks 2500]
  from t h have a: "length (pending (run page_init resize_clicks)) = length (clicks resize_clicks)
   \<and> location (run page_init resize_clicks) = js ''/''
   \<and> pending (page_step (run page_init resize_clicks) (Elapse 2900)) = []
   \<and> location (page_step (run page_init resize_clicks) (Elapse 2900))
       = snd (last (sort_key fst (pending (run page_init resize_clicks))))"
    by simp
  from t h c have b: "length (pending (run page_init rapid_clicks)) = 2
   \<and> map snd (pending (run page_init rapid_clicks)) = [js ''/tech'', js ''/design'']
   \<and> zoomTarget (scene (run page_init rapid_clicks)) = Some (-4.5, 0, -1.0)
   \<and> pending (page_step (run page_init rapid_clicks) (Elapse 2500)) = []
   \<and> location (page_step (run page_init rapid_clicks) (Elapse 2500)) = js ''/design''"
    by (simp add: route_of_def route_tech route_design)
  from a b h show ?thesis
    by blast
qed

end
